theory Spec2Isabelle
  imports Complex_Main "HOL-Library.Word"
begin

section \<open>Data model of \<open>models/PreProcessor.py\<close>\<close>

text \<open>
  Python exceptions that the modelled code paths can raise. The source defines no
  exception class of its own: every failure is one raised by Python or numpy.
\<close>

datatype py_error = IndexError | ValueError | ZeroDivisionError | KeyError

type_synonym uint16 = "16 word"

text \<open>
  A three-dimensional numpy array: its shape \<open>(X, Y, Z)\<close> and its elements in C
  order (\<open>arr.flat\<close>), so that element \<open>(x, y, z)\<close> is at flat position
  \<open>(x * Y + y) * Z + z\<close>.
\<close>

record 'a ndarray =
  shape :: "nat \<times> nat \<times> nat"
  flat :: "'a list"

definition depth :: "'a ndarray \<Rightarrow> nat" where
  "depth a = snd (snd (shape a))"

definition MAX_VOXEL_VALUE :: uint16 where
  "MAX_VOXEL_VALUE = 65535"

text \<open>
  The functions of skimage, scipy and numpy that the source calls and that are not part
  of the repository. They are parameters of the model:
  \<^item> \<open>skimage_opening\<close>, \<open>skimage_closing\<close>: \<open>skimage.morphology.opening/closing\<close> with the default
    footprint;
  \<^item> \<open>label\<close>: \<open>skimage.measure.label\<close>, returning the label array and the number of
    components (\<open>return_num=True\<close>);
  \<^item> \<open>find_peaks\<close>: \<open>scipy.signal.find_peaks(x, distance=d)[0]\<close>, a list of positions;
  \<^item> \<open>argpartition\<close>: \<open>np.argpartition(a, kth)\<close> where \<open>kth\<close> is in range.
\<close>

record libs =
  skimage_opening :: "uint16 ndarray \<Rightarrow> uint16 ndarray"
  skimage_closing :: "uint16 ndarray \<Rightarrow> uint16 ndarray"
  label :: "uint16 ndarray \<Rightarrow> nat ndarray \<times> nat"
  find_peaks :: "int list \<Rightarrow> nat \<Rightarrow> nat list"
  argpartition :: "int list \<Rightarrow> int \<Rightarrow> nat list"

text \<open>
  The fields of a \<open>PreProcessor\<close> object that the modelled methods read or write.
  \<open>img_data\<close> is the float array of \<open>get_fdata()\<close>; \<open>bones\<close> is \<open>None\<close> until
  \<open>SkeletonTHFinder\<close> has stored a mask.
\<close>

record PreProcessor =
  resolution :: int
  Imax :: int
  img_data :: "real ndarray"
  dips :: "nat list"
  bones :: "uint16 ndarray option"

text \<open>
  The object that \<open>__init__\<close> leaves when it succeeds: \<open>_dips = []\<close> and \<open>bones = None\<close>.
  The defaults of the source are \<open>resolution=10\<close> and \<open>Imax=1300\<close>.
\<close>

definition initial_state :: "real ndarray \<Rightarrow> int \<Rightarrow> int \<Rightarrow> PreProcessor" where
  "initial_state data res imax =
     \<lparr>resolution = res, Imax = imax, img_data = data, dips = [], bones = None\<rparr>"

text \<open>
  \<open>__init__\<close>, once the image is read. Line 31 takes \<open>np.min\<close> and \<open>np.max\<close> of the slice
  positions of the nonzero samples, which raises \<open>ValueError\<close> when the volume has none.
  The two slice bounds it stores are read by no other method.
\<close>

definition PreProcessor_init :: "real ndarray \<Rightarrow> int \<Rightarrow> int \<Rightarrow> py_error + PreProcessor" where
  "PreProcessor_init data res imax =
     (if list_ex (\<lambda>v. v \<noteq> 0) (flat data) then Inr (initial_state data res imax)
      else Inl ValueError)"

section \<open>Threshold segmentation\<close>

text \<open>
  \<open>img_data.astype(np.uint16)\<close> on one sample, as the conversion is compiled for x86-64:
  the sample is converted to a signed 32-bit integer, dropping the fractional part
  (rounding towards zero), and the low 16 bits of that integer are kept; a sample whose
  truncation is outside the signed 32-bit range gives 0. C leaves the conversion of a
  negative or too large sample to an unsigned type undefined, so another platform may
  give other values for such samples; for samples from 0 to 65535 the conversion is the
  truncation on every platform.
\<close>

definition trunc_toward_zero :: "real \<Rightarrow> int" where
  "trunc_toward_zero v = (if 0 \<le> v then \<lfloor>v\<rfloor> else \<lceil>v\<rceil>)"

definition int32_range :: "int \<Rightarrow> bool" where
  "int32_range k = (- 2147483648 \<le> k \<and> k < 2147483648)"

definition astype_uint16 :: "real \<Rightarrow> uint16" where
  "astype_uint16 v =
     (if int32_range (trunc_toward_zero v) then word_of_int (trunc_toward_zero v) else 0)"

text \<open>Line 64, on one voxel: \<open>img[(img <= Imax) & (img > Imin)] = MAX_VOXEL_VALUE\<close>.\<close>

definition mark_window :: "int \<Rightarrow> int \<Rightarrow> uint16 \<Rightarrow> uint16" where
  "mark_window Imin' Imax' w =
     (if uint w \<le> Imax' \<and> uint w > Imin' then MAX_VOXEL_VALUE else w)"

text \<open>Line 65, on one voxel: \<open>img[img < MAX_VOXEL_VALUE] = 0\<close>.\<close>

definition clear_below_max :: "uint16 \<Rightarrow> uint16" where
  "clear_below_max w = (if w < MAX_VOXEL_VALUE then 0 else w)"

text \<open>Lines 63 to 65 of \<open>SegmentationByTH\<close>: the thresholding before the morphology.\<close>

definition threshold_step :: "real ndarray \<Rightarrow> int \<Rightarrow> int \<Rightarrow> uint16 ndarray" where
  "threshold_step data Imin' Imax' =
     (let img0 = map astype_uint16 (flat data);
          img1 = map (mark_window Imin' Imax') img0;
          img2 = map clear_below_max img1
      in \<lparr>shape = shape data, flat = img2\<rparr>)"

definition SegmentationByTH :: "libs \<Rightarrow> PreProcessor \<Rightarrow> int \<Rightarrow> int \<Rightarrow> uint16 ndarray" where
  "SegmentationByTH L self Imin' Imax' =
     (let img = threshold_step (img_data self) Imin' Imax';
          opened_img = skimage_opening L img;
          closed_img = skimage_closing L opened_img
      in closed_img)"



section \<open>Parallel threshold scan\<close>

text \<open>
  \<open>np.arange(start, stop, step)\<close> on integers. A zero step does not reach \<open>arange\<close>
  in this program: the division by \<open>resolution\<close> raises first.
\<close>

definition arange :: "int \<Rightarrow> int \<Rightarrow> int \<Rightarrow> int list" where
  "arange start stop step =
     (if 0 < step
      then map (\<lambda>k. start + int k * step) [0..<nat ((stop - start + step - 1) div step)]
      else if step < 0
      then map (\<lambda>k. start + int k * step) [0..<nat ((start - stop - step - 1) div (- step))]
      else [])"

text \<open>\<open>_tasks_distribution\<close>: one range of candidate thresholds per worker.\<close>

definition tasks_distribution :: "PreProcessor \<Rightarrow> nat \<Rightarrow> py_error + int list list" where
  "tasks_distribution self num_cores =
     (if resolution self = 0 \<or> num_cores = 0 then Inl ZeroDivisionError
      else
        let d = ((514 - 150) div resolution self) div int num_cores
        in Inr (map (\<lambda>r. arange (150 + int r * d * resolution self)
                               (150 + int r * d * resolution self + d * resolution self)
                               (resolution self))
                    [0..<num_cores]))"

text \<open>
  \<open>do_segmentation\<close>: the loop of one worker over its range, appending to \<open>ccmps\<close>
  and \<open>img_res\<close>; the pair is what the worker stores under its \<open>pid\<close>.
\<close>

definition do_segmentation ::
  "libs \<Rightarrow> PreProcessor \<Rightarrow> int list \<Rightarrow> nat list \<times> uint16 ndarray list" where
  "do_segmentation L self Imin_range =
     fold (\<lambda>i_min (ccmps, img_res).
             let img = SegmentationByTH L self i_min (Imax self);
                 cmp = snd (label L img)
             in (ccmps @ [cmp], img_res @ [img]))
          Imin_range ([], [])"

text \<open>
  A worker process finishing: \<open>dct[pid] = process_results\<close>. The shared dictionary is a
  map from \<open>pid\<close> to the worker's pair of lists.
\<close>

definition run_process ::
  "libs \<Rightarrow> PreProcessor \<Rightarrow> int list list \<Rightarrow> nat \<Rightarrow>
   (nat \<rightharpoonup> nat list \<times> uint16 ndarray list) \<Rightarrow> (nat \<rightharpoonup> nat list \<times> uint16 ndarray list)" where
  "run_process L self ranges pid dct = dct(pid \<mapsto> do_segmentation L self (ranges ! pid))"

text \<open>
  Lines 97 to 102: after the join, the results are read by \<open>p in range(num_cores)\<close> and
  concatenated. A missing key raises \<open>KeyError\<close>.
\<close>

fun collect ::
  "(nat \<rightharpoonup> nat list \<times> uint16 ndarray list) \<Rightarrow> nat list \<Rightarrow>
   nat list \<times> uint16 ndarray list \<Rightarrow> py_error + (nat list \<times> uint16 ndarray list)" where
  "collect results [] acc = Inr acc"
| "collect results (p # ps) (cmps, img_threshold_result) =
     (case results p of
        None \<Rightarrow> Inl KeyError
      | Some (pid_ccmps, pid_imgs) \<Rightarrow>
          collect results ps (cmps @ pid_ccmps, img_threshold_result @ pid_imgs))"

text \<open>
  Lines 79 to 102 of \<open>SkeletonTHFinder\<close>. \<open>num_cores\<close> is \<open>multiprocessing.cpu_count()\<close>.
  \<open>schedule\<close> is the order in which the worker processes finish, which the operating
  system decides; an entry that names no worker is ignored.
\<close>

definition aggregate ::
  "libs \<Rightarrow> PreProcessor \<Rightarrow> nat \<Rightarrow> nat list \<Rightarrow> py_error + (nat list \<times> uint16 ndarray list)" where
  "aggregate L self num_cores schedule =
     (case tasks_distribution self num_cores of
        Inl e \<Rightarrow> Inl e
      | Inr ranges \<Rightarrow>
          let results = fold (run_process L self ranges)
                             (filter (\<lambda>pid. pid < num_cores) schedule) Map.empty
          in collect results [0..<num_cores] ([], []))"

text \<open>
  \<open>find_all_minima\<close>: the value stored in \<open>self._dips\<close>. The three slices are
  \<open>minimas[1:-1]\<close>, \<open>minimas[0:-2]\<close> and \<open>minimas[2:]\<close>; \<open>np.where(...)[0]\<close> lists the
  positions of the product array that hold \<open>True\<close>.
\<close>

definition find_all_minima :: "nat list \<Rightarrow> nat list" where
  "find_all_minima connectivity_cmps =
     (let minimas = connectivity_cmps;
          n = length minimas;
          mid = drop 1 (take (n - 1) minimas);
          left = take (n - 2) minimas;
          right = drop 2 minimas;
          cond = map2 (\<and>) (map2 (<) mid left) (map2 (<) mid right)
      in filter (\<lambda>j. cond ! j) [0..<length cond])"

text \<open>
  Lines 106 to 109: \<open>self.bones = img_threshold_result[self._dips[0]]\<close>. Reading
  element 0 of an empty array raises \<open>IndexError\<close>, as does a list index out of range.
\<close>

definition first_dip_mask :: "nat list \<Rightarrow> 'a list \<Rightarrow> py_error + 'a" where
  "first_dip_mask ds img_threshold_result =
     (case ds of
        [] \<Rightarrow> Inl IndexError
      | d0 # _ \<Rightarrow>
          if d0 < length img_threshold_result then Inr (img_threshold_result ! d0)
          else Inl IndexError)"

text \<open>
  \<open>SkeletonTHFinder\<close>: the returned mask and the object with \<open>_dips\<close> and \<open>bones\<close>
  updated. The plots and the histogram have no effect on either.
\<close>

definition SkeletonTHFinder ::
  "libs \<Rightarrow> PreProcessor \<Rightarrow> nat \<Rightarrow> nat list \<Rightarrow> py_error + (uint16 ndarray \<times> PreProcessor)" where
  "SkeletonTHFinder L self num_cores schedule =
     (case aggregate L self num_cores schedule of
        Inl e \<Rightarrow> Inl e
      | Inr (cmps, img_threshold_result) \<Rightarrow>
          let self1 = self\<lparr>dips := find_all_minima cmps\<rparr>
          in (case first_dip_mask (dips self1) img_threshold_result of
                Inl e \<Rightarrow> Inl e
              | Inr b \<Rightarrow> Inr (b, self1\<lparr>bones := Some b\<rparr>)))"

section \<open>Pelvis region of interest\<close>

text \<open>\<open>a[idx]\<close> with an array of non-negative positions.\<close>

definition take_at :: "'a list \<Rightarrow> nat list \<Rightarrow> py_error + 'a list" where
  "take_at a idx =
     (if list_all (\<lambda>i. i < length a) idx then Inr (map (\<lambda>i. a ! i) idx) else Inl IndexError)"

text \<open>\<open>np.argpartition(a, kth)\<close>: a \<open>kth\<close> outside \<open>[-n, n)\<close> raises \<open>ValueError\<close>.\<close>

definition np_argpartition :: "libs \<Rightarrow> int list \<Rightarrow> int \<Rightarrow> py_error + nat list" where
  "np_argpartition L a kth =
     (let n = int (length a)
      in if kth < - n \<or> n \<le> kth then Inl ValueError else Inr (argpartition L a kth))"

text \<open>
  Line 136: \<open>x1_max, x2_max = peaks[np.argpartition(density[peaks], -2)[-2:][::-1]]\<close>.
  Unpacking anything but two values raises \<open>ValueError\<close>.
\<close>

definition top_two_peaks :: "libs \<Rightarrow> int list \<Rightarrow> nat list \<Rightarrow> py_error + (nat \<times> nat)" where
  "top_two_peaks L density peaks =
     (case take_at density peaks of
        Inl e \<Rightarrow> Inl e
      | Inr dp \<Rightarrow>
          (case np_argpartition L dp (- 2) of
             Inl e \<Rightarrow> Inl e
           | Inr ap \<Rightarrow>
               (case take_at peaks (rev (drop (length ap - 2) ap)) of
                  Inl e \<Rightarrow> Inl e
                | Inr [x1_max, x2_max] \<Rightarrow> Inr (x1_max, x2_max)
                | Inr _ \<Rightarrow> Inl ValueError)))"

text \<open>
  \<open>np.argwhere(cond)[0]\<close> on a one-dimensional array: the first position that holds
  \<open>True\<close>, and \<open>IndexError\<close> when there is none.
\<close>

definition first_where :: "('a \<Rightarrow> bool) \<Rightarrow> 'a list \<Rightarrow> py_error + nat" where
  "first_where P xs =
     (case filter (\<lambda>j. P (xs ! j)) [0..<length xs] of
        [] \<Rightarrow> Inl IndexError
      | j # _ \<Rightarrow> Inr j)"

text \<open>
  \<open>ratio = a / b\<close> on two numpy integers, compared with \<open>1.5\<close>. Division by zero gives
  \<open>inf\<close> for a positive \<open>a\<close> and \<open>nan\<close> for \<open>0 / 0\<close>, with a warning and no exception.
  For positions below \<open>2^52\<close> the comparison of the float quotient with \<open>1.5\<close> agrees
  with the comparison of the exact quotient.
\<close>

definition ratio_exceeds :: "nat \<Rightarrow> nat \<Rightarrow> bool" where
  "ratio_exceeds a b = (if b = 0 then 0 < a else real a / real b > 1.5)"

definition ratio_below :: "nat \<Rightarrow> nat \<Rightarrow> bool" where
  "ratio_below a b = (if b = 0 then False else real a / real b < 1.5)"

text \<open>Lines 147 to 150: the loop over \<open>upper_bounds\<close>.\<close>

definition refine_upper :: "nat list \<Rightarrow> nat \<Rightarrow> nat" where
  "refine_upper upper_bounds upper_bound =
     fold (\<lambda>upper ub.
             if ratio_exceeds (upper_bounds ! upper) (upper_bounds ! (upper + 1))
             then upper_bounds ! (upper + 1) else ub)
          [0..<length upper_bounds - 1] upper_bound"

text \<open>Lines 152 to 155: the loop over \<open>lower_bounds\<close>.\<close>

definition refine_lower :: "nat list \<Rightarrow> nat \<Rightarrow> nat" where
  "refine_lower lower_bounds lower_bound =
     fold (\<lambda>lower lb.
             if ratio_below (lower_bounds ! lower) (lower_bounds ! (lower + 1))
             then lower_bounds ! (lower + 1) else lb)
          [0..<length lower_bounds - 1] lower_bound"

text \<open>
  \<open>find_suspected_pelvis_loc\<close>. \<open>minimas[np.argwhere(minimas < x1_max)[0]]\<close> indexes
  \<open>minimas\<close> with the first row of the \<open>argwhere\<close> result, an array holding one position,
  so \<open>lower_bounds\<close> and \<open>upper_bounds\<close> are arrays of one element.
\<close>

definition find_suspected_pelvis_loc :: "libs \<Rightarrow> int list \<Rightarrow> py_error + (nat \<times> nat)" where
  "find_suspected_pelvis_loc L density =
     (let peaks = find_peaks L density 150;
          deeps = find_peaks L (map (\<lambda>v. v * (- 1)) density) 200
      in case top_two_peaks L density peaks of
           Inl e \<Rightarrow> Inl e
         | Inr (x1_max, x2_max) \<Rightarrow>
        (case take_at density deeps of
           Inl e \<Rightarrow> Inl e
         | Inr dd \<Rightarrow>
        (case np_argpartition L (map (\<lambda>v. (- 1) * v) dd) (- 2) of
           Inl e \<Rightarrow> Inl e
         | Inr ad \<Rightarrow>
        (case take_at deeps (rev ad) of
           Inl e \<Rightarrow> Inl e
         | Inr minimas \<Rightarrow>
        (case first_where (\<lambda>m. m < x1_max) minimas of
           Inl e \<Rightarrow> Inl e
         | Inr jl \<Rightarrow>
        (case first_where (\<lambda>m. x1_max < m) minimas of
           Inl e \<Rightarrow> Inl e
         | Inr ju \<Rightarrow>
             let lower_bounds = [minimas ! jl];
                 upper_bounds = [minimas ! ju];
                 upper_bound = upper_bounds ! 0;
                 lower_bound = lower_bounds ! 0
             in Inr (refine_lower lower_bounds lower_bound,
                     refine_upper upper_bounds upper_bound)))))))"

text \<open>
  The rows of a C-ordered array along its last axis: \<open>X * Y\<close> rows of \<open>Z\<close> elements.
\<close>

definition z_rows :: "'a ndarray \<Rightarrow> 'a list list" where
  "z_rows a =
     (case shape a of (X, Y, Z) \<Rightarrow> map (\<lambda>k. take Z (drop (k * Z) (flat a))) [0..<X * Y])"

text \<open>
  Lines 214 to 216 of \<open>get_pelvis_ROI\<close>: \<open>bin_res[bones > 0] = 1\<close> and
  \<open>np.sum(bin_res, axis=(0, 1))\<close>, one count per axial slice.
\<close>

definition density_profile :: "uint16 ndarray \<Rightarrow> int list" where
  "density_profile b =
     fold (\<lambda>row acc. map2 (+) acc (map (\<lambda>v. if 0 < v then 1 else 0) row))
          (z_rows b) (replicate (depth b) 0)"

text \<open>
  \<open>get_pelvis_ROI\<close>, on the mask \<open>b\<close> held in \<open>self.bones\<close>. A boolean index whose shape
  differs from the indexed array's raises \<open>IndexError\<close>.
\<close>

definition get_pelvis_ROI :: "libs \<Rightarrow> PreProcessor \<Rightarrow> uint16 ndarray \<Rightarrow> py_error + (nat \<times> nat)" where
  "get_pelvis_ROI L self b =
     (if shape b \<noteq> shape (img_data self) then Inl IndexError
      else find_suspected_pelvis_loc L (density_profile b))"

section \<open>Largest connected component\<close>

text \<open>\<open>np.bincount\<close> of non-negative integers: the counts of \<open>0 .. max\<close>.\<close>

definition bincount :: "nat list \<Rightarrow> nat list" where
  "bincount xs =
     (if xs = [] then [] else map (\<lambda>k. count_list xs k) [0..<Suc (fold max xs 0)])"

text \<open>
  \<open>np.argmax\<close>: the first position of the maximum; \<open>ValueError\<close> on an empty array.
\<close>

definition np_argmax :: "nat list \<Rightarrow> py_error + nat" where
  "np_argmax ys =
     (case filter (\<lambda>i. ys ! i = fold max ys 0) [0..<length ys] of
        [] \<Rightarrow> Inl ValueError
      | i # _ \<Rightarrow> Inr i)"

text \<open>
  Lines 203 to 205 of \<open>get_Nlargest_component\<close>, on the mask \<open>b\<close> held in \<open>self.bones\<close>:
  the mask of the component with the most voxels, \<open>self.bones * largestCC\<close>.
\<close>

definition largestCC_img :: "libs \<Rightarrow> uint16 ndarray \<Rightarrow> py_error + uint16 ndarray" where
  "largestCC_img L b =
     (let labels = fst (label L b)
      in case np_argmax (drop 1 (bincount (flat labels))) of
           Inl e \<Rightarrow> Inl e
         | Inr k \<Rightarrow>
             let largestCC = map (\<lambda>l. l = k + 1) (flat labels)
             in Inr \<lparr>shape = shape b,
                     flat = map2 (\<lambda>v c. if c then v else 0) (flat b) largestCC\<rparr>)"

text \<open>Line 206: the closing pass over the selected component.\<close>

definition largestCC_closed :: "libs \<Rightarrow> uint16 ndarray \<Rightarrow> py_error + uint16 ndarray" where
  "largestCC_closed L b =
     (case largestCC_img L b of
        Inl e \<Rightarrow> Inl e
      | Inr img \<Rightarrow> Inr (skimage_closing L img))"

text \<open>\<open>a[:, :, lower:upper]\<close> for non-negative bounds.\<close>

definition crop_z :: "'a ndarray \<Rightarrow> nat \<Rightarrow> nat \<Rightarrow> 'a ndarray" where
  "crop_z a lower upper =
     (case shape a of
        (X, Y, Z) \<Rightarrow>
          let lo = min lower Z; hi = max lo (min upper Z)
          in \<lparr>shape = (X, Y, hi - lo),
              flat = concat (map (\<lambda>row. take (hi - lo) (drop lo row)) (z_rows a))\<rparr>)"

text \<open>
  \<open>get_Nlargest_component\<close>: the array handed to \<open>nib.save\<close> (the method itself returns
  nothing).
\<close>

definition get_Nlargest_component ::
  "libs \<Rightarrow> PreProcessor \<Rightarrow> uint16 ndarray \<Rightarrow> py_error + uint16 ndarray" where
  "get_Nlargest_component L self b =
     (case largestCC_closed L b of
        Inl e \<Rightarrow> Inl e
      | Inr img \<Rightarrow>
          (case get_pelvis_ROI L self b of
             Inl e \<Rightarrow> Inl e
           | Inr (lower_bound, upper_bound) \<Rightarrow> Inr (crop_z img lower_bound upper_bound)))"

section \<open>The scan and the refinement as the specification words them\<close>

text \<open>
  The candidates that \<open>_tasks_distribution\<close> hands to the workers, in worker order.
\<close>

definition dispatched_candidates :: "PreProcessor \<Rightarrow> nat \<Rightarrow> int list" where
  "dispatched_candidates self num_cores =
     (case tasks_distribution self num_cores of Inl e \<Rightarrow> [] | Inr ranges \<Rightarrow> concat ranges)"

text \<open>
  The specification's reference for the scan: the sequential map of segmentation and
  component count along a candidate list.
\<close>

definition sequential_scan ::
  "libs \<Rightarrow> PreProcessor \<Rightarrow> int list \<Rightarrow> nat list \<times> uint16 ndarray list" where
  "sequential_scan L self cands =
     (map (\<lambda>low. snd (label L (SegmentationByTH L self low (Imax self)))) cands,
      map (\<lambda>low. SegmentationByTH L self low (Imax self)) cands)"

text \<open>
  The specification's wording of the lower-side refinement: the ratio compared with
  \<open>1.5\<close> is that of the density values at two consecutive candidates, and the bound
  moves to the later candidate when the ratio is below \<open>1.5\<close>.
\<close>

definition spec_refine_lower :: "int list \<Rightarrow> nat list \<Rightarrow> nat \<Rightarrow> nat" where
  "spec_refine_lower density lower_bounds lower_bound =
     fold (\<lambda>lower lb.
             if real_of_int (density ! (lower_bounds ! lower)) /
                real_of_int (density ! (lower_bounds ! (lower + 1))) < 1.5
             then lower_bounds ! (lower + 1) else lb)
          [0..<length lower_bounds - 1] lower_bound"

section \<open>What the library functions guarantee, and reference instances\<close>

text \<open>
  The documented result of \<open>skimage.measure.label\<close> on a mask: an array of the mask's
  shape that is \<open>0\<close> exactly on the background, and the number of distinct labels.
\<close>

definition label_contract :: "libs \<Rightarrow> uint16 ndarray \<Rightarrow> bool" where
  "label_contract L b =
     (shape (fst (label L b)) = shape b \<and>
      list_all2 (\<lambda>l v. (l = 0) = (v = 0)) (flat (fst (label L b))) (flat b) \<and>
      snd (label L b) = card (set (flat (fst (label L b))) - {0}))"

text \<open>
  Grey-level erosion and dilation with the default footprint of skimage (the voxel and
  its six face neighbours). A neighbour outside the array is replaced by the voxel
  nearest to it, which for this footprint is what border reflection gives.
\<close>

definition cross_values :: "'a ndarray \<Rightarrow> nat \<times> nat \<times> nat \<Rightarrow> 'a list" where
  "cross_values a p =
     (case shape a of
        (X, Y, Z) \<Rightarrow>
          (case p of
             (x, y, z) \<Rightarrow>
               map (\<lambda>(x', y', z'). flat a ! ((x' * Y + y') * Z + z'))
                 [(x - 1, y, z), (min (x + 1) (X - 1), y, z),
                  (x, y - 1, z), (x, min (y + 1) (Y - 1), z),
                  (x, y, z - 1), (x, y, min (z + 1) (Z - 1))]))"

definition grey_filter :: "('a \<Rightarrow> 'a \<Rightarrow> 'a) \<Rightarrow> 'a ndarray \<Rightarrow> 'a ndarray" where
  "grey_filter f a =
     (case shape a of
        (X, Y, Z) \<Rightarrow>
          \<lparr>shape = (X, Y, Z),
           flat = concat (map (\<lambda>x. concat (map (\<lambda>y. map (\<lambda>z.
                     fold f (cross_values a (x, y, z)) (flat a ! ((x * Y + y) * Z + z)))
                   [0..<Z]) [0..<Y])) [0..<X])\<rparr>)"

definition grey_erosion :: "uint16 ndarray \<Rightarrow> uint16 ndarray" where
  "grey_erosion a = grey_filter min a"

definition grey_dilation :: "uint16 ndarray \<Rightarrow> uint16 ndarray" where
  "grey_dilation a = grey_filter max a"

text \<open>
  Connected-component labelling with full connectivity (the default of
  \<open>skimage.measure.label\<close>): every foreground voxel starts with its own number, takes
  the least number among itself and its foreground neighbours, once per voxel of the
  array (after which nothing changes), and the components are then numbered
  \<open>1, 2, ...\<close> in scan order. skimage may number the components in another order; the
  statements below rest on \<open>label_contract\<close>, which fixes no numbering.
\<close>

definition positions :: "nat \<times> nat \<times> nat \<Rightarrow> (nat \<times> nat \<times> nat) list" where
  "positions s =
     (case s of
        (X, Y, Z) \<Rightarrow>
          concat (map (\<lambda>x. concat (map (\<lambda>y. map (\<lambda>z. (x, y, z)) [0..<Z]) [0..<Y])) [0..<X]))"

definition adjacent :: "nat \<times> nat \<times> nat \<Rightarrow> nat \<times> nat \<times> nat \<Rightarrow> bool" where
  "adjacent p q =
     (case p of
        (x, y, z) \<Rightarrow>
          (case q of
             (x', y', z') \<Rightarrow>
               p \<noteq> q \<and> x \<le> x' + 1 \<and> x' \<le> x + 1 \<and> y \<le> y' + 1 \<and> y' \<le> y + 1 \<and>
               z \<le> z' + 1 \<and> z' \<le> z + 1))"

definition propagate :: "(nat \<times> nat \<times> nat) list \<Rightarrow> nat list \<Rightarrow> nat list" where
  "propagate ps labs =
     map (\<lambda>(p, l). if l = 0 then 0
                    else fold min (map snd (filter (\<lambda>(q, l'). l' \<noteq> 0 \<and> adjacent p q)
                                                  (zip ps labs))) l)
         (zip ps labs)"

definition label_components :: "uint16 ndarray \<Rightarrow> nat ndarray \<times> nat" where
  "label_components m =
     (let n = length (flat m);
          init = map (\<lambda>(i, v). if v = 0 then 0 else Suc i) (zip [0..<n] (flat m));
          labs = fold (\<lambda>_. propagate (positions (shape m))) (flat m) init;
          ds = sort (remdups (filter (\<lambda>l. l \<noteq> 0) labs))
      in (\<lparr>shape = shape m,
           flat = map (\<lambda>l. if l = 0 then 0 else Suc (length (takeWhile (\<lambda>d. d \<noteq> l) ds))) labs\<rparr>,
          length ds))"

text \<open>
  Peak detection as scipy documents it: a flat peak is reported at the middle of its
  plateau, the first and the last sample are never peaks, and of two peaks closer than
  \<open>distance\<close> the lower one is dropped, the highest peaks being kept first.
\<close>

function local_maxima :: "int \<Rightarrow> nat \<Rightarrow> int list \<Rightarrow> nat list" where
  "local_maxima prev i [] = []"
| "local_maxima prev i (x # xs) =
     (if prev < x
      then (if (case dropWhile (\<lambda>y. y = x) xs of [] \<Rightarrow> False | y # _ \<Rightarrow> y < x)
            then [(2 * i + length (takeWhile (\<lambda>y. y = x) xs)) div 2] else []) @
           local_maxima x (i + length (takeWhile (\<lambda>y. y = x) xs) + 1)
             (dropWhile (\<lambda>y. y = x) xs)
      else local_maxima x (Suc i) xs)"
  by pat_completeness auto
termination
  by (relation "measure (\<lambda>(prev, i, xs). length xs)")
     (auto simp: le_imp_less_Suc length_dropWhile_le)

fun keep_by_distance :: "nat \<Rightarrow> nat list \<Rightarrow> nat list \<Rightarrow> nat list" where
  "keep_by_distance d [] kept = kept"
| "keep_by_distance d (p # ps) kept =
     (if list_ex (\<lambda>q. (if p < q then q - p else p - q) < d) kept
      then keep_by_distance d ps kept
      else keep_by_distance d ps (p # kept))"

definition ref_find_peaks :: "int list \<Rightarrow> nat \<Rightarrow> nat list" where
  "ref_find_peaks x distance =
     (let peaks = (case x of [] \<Rightarrow> [] | x0 # rest \<Rightarrow> local_maxima x0 1 rest);
          by_priority = rev (sort_key (\<lambda>p. x ! p) peaks)
      in sort (keep_by_distance distance by_priority []))"

text \<open>A full sort of the positions by value is one admissible \<open>argpartition\<close>.\<close>

definition argsort :: "int list \<Rightarrow> nat list" where
  "argsort a = map snd (sort_key fst (zip a [0..<length a]))"

definition ref_libs :: libs where
  "ref_libs =
     \<lparr>skimage_opening = (\<lambda>a. grey_dilation (grey_erosion a)),
      skimage_closing = (\<lambda>a. grey_erosion (grey_dilation a)),
      label = label_components,
      find_peaks = ref_find_peaks,
      argpartition = (\<lambda>a kth. argsort a)\<rparr>"

section \<open>Concrete inputs\<close>

text \<open>A volume of one voxel.\<close>

definition voxel :: "'a \<Rightarrow> 'a ndarray" where
  "voxel v = \<lparr>shape = (1, 1, 1), flat = [v]\<rparr>"


text \<open>
  A profile of 204 slices at level \<open>a\<close> with a valley at slice 1, a peak at slice 2, a
  valley at slice 201 and a peak at slice 202.
\<close>

definition profile_row :: "'a \<Rightarrow> 'a \<Rightarrow> 'a \<Rightarrow> 'a \<Rightarrow> 'a \<Rightarrow> 'a list" where
  "profile_row a v1 p1 v2 p2 = [a, v1, p1] @ replicate 198 a @ [v2, p2, a]"

text \<open>
  A mask of shape \<open>(2, 2, 204)\<close> whose four rows have, slice by slice, 2 foreground
  voxels at the base level, 1 and 0 in the two valleys, 4 and 3 at the two peaks.
\<close>

definition pelvis_mask :: "uint16 ndarray" where
  "pelvis_mask =
     \<lparr>shape = (2, 2, 204),
      flat = profile_row 65535 65535 65535 0 65535 @ profile_row 65535 0 65535 0 65535 @
             profile_row 0 0 65535 0 65535 @ profile_row 0 0 65535 0 0\<rparr>"


text \<open>
  A density profile of 403 slices at level 10, with valleys of density 2, 3 and 1 at the
  slices 1, 201 and 401 and peaks of density 20 and 30 at the slices 2 and 202.
\<close>

definition three_valley_profile :: "int list" where
  "three_valley_profile =
     [10, 2, 20] @ replicate 198 10 @ [3, 30] @ replicate 198 10 @ [1, 10]"

text \<open>A volume of the shape of \<open>pelvis_mask\<close>, at 500 where the mask is set.\<close>

definition pelvis_volume :: "real ndarray" where
  "pelvis_volume =
     \<lparr>shape = shape pelvis_mask, flat = map (\<lambda>w. if w = 0 then 0 else 500) (flat pelvis_mask)\<rparr>"

section \<open>Properties\<close>

subsection \<open>Thresholding\<close>

lemma threshold_voxel:
  "clear_below_max (mark_window lo hi w) =
     (if (lo < uint w \<and> uint w \<le> hi) \<or> w = MAX_VOXEL_VALUE then MAX_VOXEL_VALUE else 0)"
proof -
  have "uint w < 65536" using uint_lt2p[of w] by simp
  then have "w \<noteq> MAX_VOXEL_VALUE \<Longrightarrow> w < MAX_VOXEL_VALUE"
    by (simp add: MAX_VOXEL_VALUE_def word_less_def word_uint_eq_iff)
  then show ?thesis by (auto simp: clear_below_max_def mark_window_def)
qed

lemma threshold_step_flat:
  "flat (threshold_step data lo hi) =
     map (\<lambda>v. if (lo < uint (astype_uint16 v) \<and> uint (astype_uint16 v) \<le> hi) \<or>
                   astype_uint16 v = MAX_VOXEL_VALUE
                then MAX_VOXEL_VALUE else 0) (flat data)"
  by (simp add: threshold_step_def Let_def threshold_voxel comp_def)

lemma threshold_step_shape: "shape (threshold_step data lo hi) = shape data"
  by (simp add: threshold_step_def Let_def)

lemma uint_astype_uint16:
  "uint (astype_uint16 v) =
     (if int32_range (trunc_toward_zero v) then trunc_toward_zero v mod 65536 else 0)"
  by (simp add: astype_uint16_def uint_word_of_int)

lemma trunc_of_int: "trunc_toward_zero (of_int k) = k"
  by (simp add: trunc_toward_zero_def)

lemma astype_max_iff:
  "astype_uint16 v = MAX_VOXEL_VALUE \<longleftrightarrow>
     int32_range (trunc_toward_zero v) \<and> trunc_toward_zero v mod 65536 = 65535"
proof -
  have "astype_uint16 v = MAX_VOXEL_VALUE \<longleftrightarrow> uint (astype_uint16 v) = uint MAX_VOXEL_VALUE"
    by (simp add: word_uint_eq_iff)
  also have "uint MAX_VOXEL_VALUE = 65535" by (simp add: MAX_VOXEL_VALUE_def)
  finally show ?thesis by (simp add: uint_astype_uint16)
qed

lemma degenerate_window_zero:
  assumes "hi \<le> lo" "\<forall>v \<in> set (flat data). astype_uint16 v \<noteq> MAX_VOXEL_VALUE"
  shows "flat (threshold_step data lo hi) = replicate (length (flat data)) 0"
proof -
  have "flat (threshold_step data lo hi) = map (\<lambda>v. 0) (flat data)"
    unfolding threshold_step_flat using assms by (intro map_cong) auto
  then show ?thesis by (simp add: map_replicate_const)
qed

subsection \<open>The threshold scan\<close>

lemma find_all_minima_filter:
  "find_all_minima c =
     filter (\<lambda>j. c ! (j + 1) < c ! j \<and> c ! (j + 1) < c ! (j + 2)) [0..<length c - 2]"
proof -
  let ?n = "length c"
  let ?mid = "drop 1 (take (?n - 1) c)"
  let ?left = "take (?n - 2) c"
  let ?right = "drop 2 c"
  let ?cond = "map2 (\<and>) (map2 (<) ?mid ?left) (map2 (<) ?mid ?right)"
  have len: "length ?cond = ?n - 2" by auto
  have nth: "?cond ! j = (c ! (j + 1) < c ! j \<and> c ! (j + 1) < c ! (j + 2))" if "j < ?n - 2" for j
    using that by (simp add: add.commute)
  have "filter (\<lambda>j. ?cond ! j) [0..<length ?cond] =
        filter (\<lambda>j. c ! (j + 1) < c ! j \<and> c ! (j + 1) < c ! (j + 2)) [0..<?n - 2]"
    unfolding len by (rule filter_cong) (use nth in auto)
  then show ?thesis by (simp add: find_all_minima_def Let_def)
qed

lemma find_all_minima_set:
  "set (find_all_minima c) =
     {j. j + 2 < length c \<and> c ! (j + 1) < c ! j \<and> c ! (j + 1) < c ! (j + 2)}"
  by (auto simp: find_all_minima_filter)

lemma find_all_minima_sorted: "sorted (find_all_minima c) \<and> distinct (find_all_minima c)"
  by (simp add: find_all_minima_filter sorted_wrt_filter)

lemma find_all_minima_empty_iff:
  "find_all_minima c = [] \<longleftrightarrow>
     (\<forall>i. 1 \<le> i \<and> i + 1 < length c \<longrightarrow> \<not> (c ! i < c ! (i - 1) \<and> c ! i < c ! (i + 1)))"
proof -
  have "find_all_minima c = [] \<longleftrightarrow> set (find_all_minima c) = {}" by simp
  also have "\<dots> \<longleftrightarrow> (\<forall>j. j + 2 < length c \<longrightarrow> \<not> (c ! (j + 1) < c ! j \<and> c ! (j + 1) < c ! (j + 2)))"
    unfolding find_all_minima_set by auto
  also have "\<dots> \<longleftrightarrow> (\<forall>i. 1 \<le> i \<and> i + 1 < length c \<longrightarrow> \<not> (c ! i < c ! (i - 1) \<and> c ! i < c ! (i + 1)))"
  proof (intro iffI allI impI)
    fix i assume a: "\<forall>j. j + 2 < length c \<longrightarrow> \<not> (c ! (j + 1) < c ! j \<and> c ! (j + 1) < c ! (j + 2))"
      and i: "1 \<le> i \<and> i + 1 < length c"
    from i obtain j where j: "i = j + 1" by (metis add.commute le_Suc_ex plus_1_eq_Suc)
    with a i have "\<not> (c ! (j + 1) < c ! j \<and> c ! (j + 1) < c ! (j + 2))" by simp
    with j show "\<not> (c ! i < c ! (i - 1) \<and> c ! i < c ! (i + 1))" by (simp add: numeral_2_eq_2)
  next
    fix j assume a: "\<forall>i. 1 \<le> i \<and> i + 1 < length c \<longrightarrow> \<not> (c ! i < c ! (i - 1) \<and> c ! i < c ! (i + 1))"
      and j: "j + 2 < length c"
    from a[rule_format, of "j + 1"] j
    show "\<not> (c ! (j + 1) < c ! j \<and> c ! (j + 1) < c ! (j + 2))" by (simp add: numeral_2_eq_2)
  qed
  finally show ?thesis .
qed

lemma do_segmentation_fold:
  "fold (\<lambda>i_min (ccmps, img_res).
             let img = SegmentationByTH L self i_min (Imax self);
                 cmp = snd (label L img)
             in (ccmps @ [cmp], img_res @ [img])) r (a, b) =
   (a @ map (\<lambda>t. snd (label L (SegmentationByTH L self t (Imax self)))) r,
    b @ map (\<lambda>t. SegmentationByTH L self t (Imax self)) r)"
  by (induction r arbitrary: a b) (simp_all add: Let_def)

lemma do_segmentation_map:
  "do_segmentation L self r =
     (map (\<lambda>t. snd (label L (SegmentationByTH L self t (Imax self)))) r,
      map (\<lambda>t. SegmentationByTH L self t (Imax self)) r)"
  using do_segmentation_fold[of L self r "[]" "[]"] by (simp add: do_segmentation_def)

lemma arange_pos:
  assumes "0 < step" "0 \<le> d"
  shows "arange start (start + d * step) step = map (\<lambda>k. start + int k * step) [0..<nat d]"
proof -
  have "(d * step + step - 1) div step = d"
  proof -
    have "(d * step + step - 1) = (step - 1) + d * step" by simp
    also have "\<dots> div step = (step - 1) div step + d" using assms by simp
    also have "(step - 1) div step = 0" using assms by (simp add: div_pos_pos_trivial)
    finally show ?thesis by simp
  qed
  then show ?thesis using assms by (simp add: arange_def)
qed

lemma run_process_fold:
  "fold (run_process L self ranges) sched m p =
     (if p \<in> set sched then Some (do_segmentation L self (ranges ! p)) else m p)"
  by (induction sched arbitrary: m) (auto simp: run_process_def)

lemma collect_all:
  assumes "\<forall>p \<in> set ps. results p = Some (f p)"
  shows "collect results ps (a, b) =
           Inr (a @ concat (map (\<lambda>p. fst (f p)) ps), b @ concat (map (\<lambda>p. snd (f p)) ps))"
  using assms
proof (induction ps arbitrary: a b)
  case Nil then show ?case by simp
next
  case (Cons p ps)
  then show ?case by (cases "f p") simp
qed

lemma collect_missing:
  assumes "p \<in> set ps" "results p = None"
  shows "collect results ps acc = Inl KeyError"
  using assms
proof (induction ps arbitrary: acc)
  case Nil then show ?case by simp
next
  case (Cons q qs)
  obtain a b where acc: "acc = (a, b)" by (cases acc)
  show ?case
  proof (cases "results q")
    case None then show ?thesis by (simp add: acc)
  next
    case (Some r)
    with Cons.prems have "p \<in> set qs" by auto
    with Cons Some show ?thesis by (cases r) (simp add: acc)
  qed
qed

lemma concat_chunks:
  "concat (map (\<lambda>r. map (\<lambda>k. g (r * d + k)) [0..<d]) [0..<n]) = map g [0..<n * d]"
proof (induction n)
  case 0 then show ?case by simp
next
  case (Suc n)
  have "map g [0..<Suc n * d] = map g [0..<n * d] @ map g [n * d..<n * d + d]"
    by (metis add.commute le_add1 map_append mult_Suc upt_add_eq_append zero_le)
  moreover have "map g [n * d..<n * d + d] = map (\<lambda>k. g (n * d + k)) [0..<d]"
    by (simp add: map_add_upt[symmetric] add.commute)
  ultimately show ?case using Suc by simp
qed

lemma tasks_distribution_length:
  "tasks_distribution self N = Inr ranges \<Longrightarrow> length ranges = N"
  by (auto simp: tasks_distribution_def Let_def split: if_splits)

lemma tasks_distribution_pos:
  assumes "0 < resolution self" "0 < N"
  shows "tasks_distribution self N =
           Inr (map (\<lambda>r. map (\<lambda>k. 150 + int (r * nat (364 div resolution self div int N) + k) * resolution self)
                      [0..<nat (364 div resolution self div int N)]) [0..<N])"
proof -
  let ?res = "resolution self"
  let ?d = "364 div ?res div int N"
  have d0: "0 \<le> ?d" using assms by (simp add: pos_imp_zdiv_nonneg_iff)
  have row: "arange (150 + int r * ?d * ?res) (150 + int r * ?d * ?res + ?d * ?res) ?res =
        map (\<lambda>k. 150 + int (r * nat ?d + k) * ?res) [0..<nat ?d]" for r
  proof -
    have "arange (150 + int r * ?d * ?res) (150 + int r * ?d * ?res + ?d * ?res) ?res =
          map (\<lambda>k. 150 + int r * ?d * ?res + int k * ?res) [0..<nat ?d]"
      using arange_pos[OF assms(1) d0] by simp
    also have "\<dots> = map (\<lambda>k. 150 + int (r * nat ?d + k) * ?res) [0..<nat ?d]"
      using d0 by (simp add: algebra_simps)
    finally show ?thesis .
  qed
  show ?thesis using assms by (simp add: tasks_distribution_def Let_def row)
qed

lemma dispatched_candidates_pos:
  assumes "0 < resolution self" "0 < N"
  shows "dispatched_candidates self N =
           map (\<lambda>j. 150 + int j * resolution self) [0..<N * nat (364 div resolution self div int N)]"
  unfolding dispatched_candidates_def tasks_distribution_pos[OF assms]
  using concat_chunks[of "\<lambda>j. 150 + int j * resolution self" "nat (364 div resolution self div int N)" N]
  by simp

lemma aggregate_eq:
  assumes td: "tasks_distribution self N = Inr ranges" and sched: "{0..<N} \<subseteq> set schedule"
  shows "aggregate L self N schedule = Inr (sequential_scan L self (concat ranges))"
proof -
  let ?results = "fold (run_process L self ranges) (filter (\<lambda>pid. pid < N) schedule) Map.empty"
  let ?f = "\<lambda>p. do_segmentation L self (ranges ! p)"
  have len: "length ranges = N" using td by (rule tasks_distribution_length)
  have "\<forall>p \<in> set [0..<N]. ?results p = Some (?f p)"
    using sched by (auto simp: run_process_fold)
  then have "collect ?results [0..<N] ([], []) =
        Inr (concat (map (\<lambda>p. fst (?f p)) [0..<N]), concat (map (\<lambda>p. snd (?f p)) [0..<N]))"
    using collect_all[of "[0..<N]" ?results ?f "[]" "[]"] by simp
  moreover have nth_map: "map (\<lambda>p. F (ranges ! p)) [0..<N] = map F ranges" for F :: "int list \<Rightarrow> 'b"
    using len by (simp add: list_eq_iff_nth_eq)
  have "map (\<lambda>p. fst (?f p)) [0..<N] =
        map (map (\<lambda>t. snd (label L (SegmentationByTH L self t (Imax self))))) ranges"
    using nth_map[of "map (\<lambda>t. snd (label L (SegmentationByTH L self t (Imax self))))"]
    by (simp add: do_segmentation_map)
  moreover have "map (\<lambda>p. snd (?f p)) [0..<N] =
        map (map (\<lambda>t. SegmentationByTH L self t (Imax self))) ranges"
    using nth_map[of "map (\<lambda>t. SegmentationByTH L self t (Imax self))"]
    by (simp add: do_segmentation_map)
  ultimately show ?thesis
    by (simp add: aggregate_def td sequential_scan_def map_concat)
qed

lemma aggregate_error:
  "tasks_distribution self N = Inl e \<Longrightarrow> aggregate L self N schedule = Inl e"
  by (simp add: aggregate_def)

lemma SkeletonTHFinder_no_dip:
  assumes "aggregate L self N schedule = Inr (cmps, imgs)" "find_all_minima cmps = []"
  shows "SkeletonTHFinder L self N schedule = Inl IndexError"
  using assms by (simp add: SkeletonTHFinder_def first_dip_mask_def)

lemma sequential_scan_length:
  "length (fst (sequential_scan L self cands)) = length cands"
  "length (snd (sequential_scan L self cands)) = length cands"
  by (simp_all add: sequential_scan_def)

subsection \<open>The largest component\<close>


lemma np_argmax_Nil: "np_argmax [] = Inl ValueError"
  by (simp add: np_argmax_def)


lemma fold_max_in: "fold max xs (a::nat) \<in> insert a (set xs)"
  by (induction xs arbitrary: a) (auto simp: max_def)


lemma drop1_bincount:
  "drop 1 (bincount xs) =
     (if xs = [] then [] else map (\<lambda>j. count_list xs (Suc j)) [0..<fold max xs 0])"
proof -
  have "drop 1 (map f [0..<Suc m]) = map (\<lambda>j. f (Suc j)) [0..<m]" for f :: "nat \<Rightarrow> nat" and m
  proof -
    have "drop 1 (map f [0..<Suc m]) = map f [Suc 0..<Suc m]"
      by (simp add: drop_map drop_upt del: upt_Suc)
    also have "[Suc 0..<Suc m] = map Suc [0..<m]" by (simp only: map_Suc_upt)
    finally show ?thesis by (simp add: comp_def)
  qed
  then show ?thesis by (simp add: bincount_def del: upt_Suc)
qed





lemma largestCC_img_background:
  assumes bg: "\<forall>v \<in> set (flat b). v = 0" and lc: "label_contract L b"
  shows "largestCC_img L b = Inl ValueError"
proof -
  let ?ls = "flat (fst (label L b))"
  from lc have la: "list_all2 (\<lambda>l v. (l = 0) = (v = 0)) ?ls (flat b)"
    by (simp add: label_contract_def)
  have zero: "\<forall>l \<in> set ?ls. l = 0"
  proof
    fix l assume "l \<in> set ?ls"
    then obtain i where i: "i < length ?ls" "?ls ! i = l" by (auto simp: in_set_conv_nth)
    with la have "(l = 0) = (flat b ! i = 0)" "i < length (flat b)"
      by (auto simp: list_all2_conv_all_nth)
    with bg show "l = 0" by simp
  qed
  have "fold max ?ls 0 = 0" using fold_max_in[of ?ls 0] zero by auto
  then have "drop 1 (bincount ?ls) = []" unfolding drop1_bincount by simp
  then show ?thesis unfolding largestCC_img_def Let_def by (simp add: np_argmax_Nil)
qed


lemma get_Nlargest_component_error:
  "largestCC_img L b = Inl e \<Longrightarrow> get_Nlargest_component L self b = Inl e"
  by (simp add: get_Nlargest_component_def largestCC_closed_def)

subsection \<open>The pelvis locator\<close>

lemma fold_last_hit:
  "fold (\<lambda>i acc. if P i then g i else acc) xs a =
     (if filter P xs = [] then a else g (last (filter P xs)))"
  by (induction xs arbitrary: a) (auto simp: filter_empty_conv)

lemma refine_upper_last:
  "refine_upper ubs ub0 =
     (if filter (\<lambda>k. ratio_exceeds (ubs ! k) (ubs ! (k + 1))) [0..<length ubs - 1] = [] then ub0
      else ubs ! (last (filter (\<lambda>k. ratio_exceeds (ubs ! k) (ubs ! (k + 1))) [0..<length ubs - 1]) + 1))"
  unfolding refine_upper_def by (rule fold_last_hit)

lemma refine_lower_last:
  "refine_lower lbs lb0 =
     (if filter (\<lambda>k. ratio_below (lbs ! k) (lbs ! (k + 1))) [0..<length lbs - 1] = [] then lb0
      else lbs ! (last (filter (\<lambda>k. ratio_below (lbs ! k) (lbs ! (k + 1))) [0..<length lbs - 1]) + 1))"
  unfolding refine_lower_def by (rule fold_last_hit)

lemma refine_single: "refine_upper [x] y = y" "refine_lower [x] y = y"
  by (simp_all add: refine_upper_def refine_lower_def)

lemma first_where_Inr:
  assumes "first_where P xs = Inr j"
  shows "j < length xs \<and> P (xs ! j)"
proof -
  from assms obtain rest where "filter (\<lambda>j. P (xs ! j)) [0..<length xs] = j # rest"
    by (auto simp: first_where_def split: list.splits)
  then have "j \<in> set (filter (\<lambda>j. P (xs ! j)) [0..<length xs])" by simp
  then show ?thesis by simp
qed

lemma take_at_Inr:
  assumes "take_at a idx = Inr r"
  shows "r = map (\<lambda>i. a ! i) idx \<and> (\<forall>i \<in> set idx. i < length a)"
  using assms by (auto simp: take_at_def list_all_iff split: if_splits)

lemma pelvis_loc_bounds:
  assumes "find_suspected_pelvis_loc L density = Inr (lo, hi)"
  shows "\<exists>x1. lo < x1 \<and> x1 < hi \<and> lo < length density \<and> hi < length density \<and>
              lo \<in> set (find_peaks L (map (\<lambda>v. v * (- 1)) density) 200) \<and>
              hi \<in> set (find_peaks L (map (\<lambda>v. v * (- 1)) density) 200)"
proof -
  let ?deeps = "find_peaks L (map (\<lambda>v. v * (- 1)) density) 200"
  from assms obtain x1 x2 dd ad minimas jl ju where
    dd: "take_at density ?deeps = Inr dd" and
    mi: "take_at ?deeps (rev ad) = Inr minimas" and
    jl: "first_where (\<lambda>m. m < x1) minimas = Inr jl" and
    ju: "first_where (\<lambda>m. x1 < m) minimas = Inr ju" and
    res: "lo = minimas ! jl" "hi = minimas ! ju"
    by (auto simp: find_suspected_pelvis_loc_def Let_def refine_single split: sum.splits prod.splits)
  from take_at_Inr[OF dd] have deeps: "\<forall>i \<in> set ?deeps. i < length density" by simp
  from take_at_Inr[OF mi] have m: "minimas = map (\<lambda>i. ?deeps ! i) (rev ad)"
    and ad: "\<forall>i \<in> set (rev ad). i < length ?deeps" by simp_all
  have mem: "minimas ! j \<in> set ?deeps" if "j < length minimas" for j
  proof -
    from that have "j < length (rev ad)" unfolding m by simp
    then have "rev ad ! j \<in> set (rev ad)" by (rule nth_mem)
    with ad have "rev ad ! j < length ?deeps" by blast
    then show ?thesis using that unfolding m by simp
  qed
  from first_where_Inr[OF jl] first_where_Inr[OF ju] res
  have "lo < x1" "x1 < hi" "jl < length minimas" "ju < length minimas" by simp_all
  with mem[of jl] mem[of ju] res deeps show ?thesis by (intro exI[of _ x1]) simp
qed

lemma length_fold_map2:
  "length (fold (\<lambda>row acc. map2 f acc (g row)) rows acc0) \<le> length acc0"
proof (induction rows arbitrary: acc0)
  case Nil then show ?case by simp
next
  case (Cons r rows)
  have "length (fold (\<lambda>row acc. map2 f acc (g row)) rows (map2 f acc0 (g r))) \<le> length (map2 f acc0 (g r))"
    by (rule Cons.IH)
  then show ?case by simp
qed

lemma length_density_profile: "length (density_profile b) \<le> depth b"
  unfolding density_profile_def
  using length_fold_map2[of "(+)" "map (\<lambda>v. if 0 < v then 1 else 0)" "z_rows b" "replicate (depth b) 0"]
  by simp

lemma get_pelvis_ROI_bounds:
  assumes "get_pelvis_ROI L self b = Inr (lo, hi)"
  shows "0 \<le> lo \<and> lo < hi \<and> hi < depth b \<and> depth b = depth (img_data self)"
proof -
  from assms have sh: "shape b = shape (img_data self)"
    and loc: "find_suspected_pelvis_loc L (density_profile b) = Inr (lo, hi)"
    by (auto simp: get_pelvis_ROI_def split: if_splits)
  from pelvis_loc_bounds[OF loc] have "lo < hi" "hi < length (density_profile b)" by auto
  with length_density_profile[of b] sh show ?thesis by (simp add: depth_def)
qed

subsection \<open>The reference library on a one-voxel volume\<close>

lemma positions_111: "positions (Suc 0, Suc 0, Suc 0) = [(0, 0, 0)]"
  by (simp add: positions_def)

lemma grey_filter_voxel: "grey_filter f (voxel w) = voxel (fold f (replicate 6 w) w)"
  by (simp add: grey_filter_def voxel_def cross_values_def numeral_eq_Suc)

lemma ref_opening_voxel: "skimage_opening ref_libs (voxel w) = voxel w"
  by (simp add: ref_libs_def grey_erosion_def grey_dilation_def grey_filter_voxel numeral_eq_Suc)

lemma ref_closing_voxel: "skimage_closing ref_libs (voxel w) = voxel w"
  by (simp add: ref_libs_def grey_erosion_def grey_dilation_def grey_filter_voxel numeral_eq_Suc)

lemma ref_label_voxel:
  "label ref_libs (voxel w) = (voxel (if w = 0 then 0 else 1), if w = 0 then 0 else 1)"
proof -
  have "label_components (voxel w) = (voxel (if w = 0 then 0 else 1), if w = 0 then 0 else 1)"
    by (cases "w = 0")
       (simp_all add: label_components_def voxel_def positions_111 propagate_def Let_def)
  then show ?thesis by (simp add: ref_libs_def)
qed

lemma threshold_step_voxel:
  "threshold_step (voxel v) lo hi = voxel (clear_below_max (mark_window lo hi (astype_uint16 v)))"
  by (simp add: threshold_step_def voxel_def Let_def)

lemma Seg_voxel:
  "SegmentationByTH ref_libs (initial_state (voxel v) r im) lo hi =
     voxel (clear_below_max (mark_window lo hi (astype_uint16 v)))"
  by (simp add: SegmentationByTH_def initial_state_def threshold_step_voxel ref_opening_voxel ref_closing_voxel Let_def)

subsection \<open>A fresh object\<close>

lemma initial_state_simps [simp]:
  "resolution (initial_state d r i) = r"
  "Imax (initial_state d r i) = i"
  "img_data (initial_state d r i) = d"
  by (simp_all add: initial_state_def)

subsection \<open>Claims about the threshold scan\<close>

lemma find_all_minima_shift:
  "set (find_all_minima c) =
     (\<lambda>i. i - 1) ` {i. 1 \<le> i \<and> i + 1 < length c \<and> c ! i < c ! (i - 1) \<and> c ! i < c ! (i + 1)}"
proof (intro equalityI subsetI)
  fix j assume "j \<in> set (find_all_minima c)"
  then have j: "j + 2 < length c" "c ! (j + 1) < c ! j" "c ! (j + 1) < c ! (j + 2)"
    by (simp_all add: find_all_minima_set)
  then have "j + 1 \<in> {i. 1 \<le> i \<and> i + 1 < length c \<and> c ! i < c ! (i - 1) \<and> c ! i < c ! (i + 1)}"
    by (simp add: numeral_2_eq_2)
  then have "(j + 1) - 1 \<in> (\<lambda>i. i - 1) ` {i. 1 \<le> i \<and> i + 1 < length c \<and> c ! i < c ! (i - 1) \<and> c ! i < c ! (i + 1)}"
    by (rule imageI)
  then show "j \<in> (\<lambda>i. i - 1) ` {i. 1 \<le> i \<and> i + 1 < length c \<and> c ! i < c ! (i - 1) \<and> c ! i < c ! (i + 1)}"
    by simp
next
  fix j assume "j \<in> (\<lambda>i. i - 1) ` {i. 1 \<le> i \<and> i + 1 < length c \<and> c ! i < c ! (i - 1) \<and> c ! i < c ! (i + 1)}"
  then obtain i where i: "j = i - 1" "1 \<le> i" "i + 1 < length c" "c ! i < c ! (i - 1)" "c ! i < c ! (i + 1)"
    by auto
  then have ij: "i = j + 1" by simp
  from i show "j \<in> set (find_all_minima c)"
    unfolding find_all_minima_set ij by (simp add: numeral_2_eq_2)
qed

text \<open>
  C1. The claim: the dip index set is exactly the set of interior indices \<open>i\<close> with
  \<open>curve[i] < curve[i-1]\<close> and \<open>curve[i] < curve[i+1]\<close>, the selected mask is the one at
  the smallest such index, and the curve \<open>[40, 30, 35, 50, 10, 20]\<close> gives \<open>{1, 4}\<close> and
  selects index 1. The code stores positions of the slice \<open>minimas[1:-1]\<close>, which are
  one less than the curve indices (\<open>find_all_minima_shift\<close>): on this curve it stores
  \<open>[0, 3]\<close> and selects the mask at index 0.
\<close>

theorem C1_scenario_dips_one_less:
  "find_all_minima [40, 30, 35, 50, 10, 20] = [0, 3] \<and>
   first_dip_mask (find_all_minima [40, 30, 35, 50, 10, 20])
     [''m0'', ''m1'', ''m2'', ''m3'', ''m4'', ''m5''] = Inr ''m0''"
  by code_simp

lemma aggregate_pos:
  assumes "0 < resolution self" "0 < N" "{0..<N} \<subseteq> set schedule"
  shows "aggregate L self N schedule =
           Inr (sequential_scan L self (dispatched_candidates self N))"
proof -
  obtain ranges where td: "tasks_distribution self N = Inr ranges"
    using tasks_distribution_pos[OF assms(1,2)] by blast
  then have "dispatched_candidates self N = concat ranges"
    by (simp add: dispatched_candidates_def)
  with aggregate_eq[OF td assms(3)] show ?thesis by simp
qed

lemma dispatched_prefix:
  assumes "0 < resolution self" "0 < N"
  shows "dispatched_candidates self N =
           take (N * nat (364 div resolution self div int N)) (dispatched_candidates self 1)"
proof -
  let ?q = "364 div resolution self"
  have q0: "0 \<le> ?q" using assms by (simp add: pos_imp_zdiv_nonneg_iff)
  have d0: "0 \<le> ?q div int N" using assms q0 by (simp add: pos_imp_zdiv_nonneg_iff)
  have "?q = int N * (?q div int N) + ?q mod int N" by simp
  moreover have "0 \<le> ?q mod int N" using assms by simp
  ultimately have "int N * (?q div int N) \<le> ?q" by linarith
  then have "int (N * nat (?q div int N)) \<le> ?q" using d0 by simp
  then have le: "N * nat (?q div int N) \<le> nat ?q" by linarith
  have one: "dispatched_candidates self 1 = map (\<lambda>j. 150 + int j * resolution self) [0..<nat ?q]"
    using dispatched_candidates_pos[OF assms(1), of 1] by simp
  show ?thesis
    unfolding dispatched_candidates_pos[OF assms] one using le by (simp add: take_map)
qed

text \<open>
  C2, as amended. For a positive step and \<open>N \<ge> 1\<close> workers, in whatever order the
  workers finish, the aggregated curve and mask list are the sequential map of
  segmentation and component count along the dispatched candidates. These are the
  first \<open>N * ((364 div step) div N)\<close> of the candidates \<open>150, 150 + step, ...\<close>: a prefix of
  the candidates of a single worker, whose length depends on \<open>N\<close>.
\<close>

theorem C2_curve_is_scan_of_dispatched:
  assumes "0 < resolution self" "0 < N" "{0..<N} \<subseteq> set schedule"
  shows "aggregate L self N schedule =
           Inr (sequential_scan L self (dispatched_candidates self N)) \<and>
         dispatched_candidates self N =
           map (\<lambda>j. 150 + int j * resolution self)
               [0..<N * nat (364 div resolution self div int N)] \<and>
         length (fst (sequential_scan L self (dispatched_candidates self N))) =
           N * nat (364 div resolution self div int N) \<and>
         dispatched_candidates self N =
           take (N * nat (364 div resolution self div int N)) (dispatched_candidates self 1)"
  using aggregate_pos[OF assms] dispatched_candidates_pos[OF assms(1,2)]
        dispatched_prefix[OF assms(1,2)]
  by (simp add: sequential_scan_length)

lemma cast_examples:
  "astype_uint16 250 = 250" "astype_uint16 100 = 100"
  by code_simp+

lemma scan_voxel_250:
  "sequential_scan ref_libs (initial_state (voxel 250) 100 1300) [150, 250, 350] =
     ([1, 0, 0], [voxel 65535, voxel 0, voxel 0])"
  by (simp add: sequential_scan_def Seg_voxel ref_label_voxel cast_examples
        mark_window_def clear_below_max_def MAX_VOXEL_VALUE_def)

lemma scan_voxel_100:
  "sequential_scan ref_libs (initial_state (voxel 100) 100 1300) [150, 250, 350] =
     ([0, 0, 0], [voxel 0, voxel 0, voxel 0])"
  by (simp add: sequential_scan_def Seg_voxel ref_label_voxel cast_examples
        mark_window_def clear_below_max_def MAX_VOXEL_VALUE_def)

lemma upt_examples:
  "[0..<2] = [0, 1]" "[0..<3] = [0, 1, 2]" "[0..<4] = [0, 1, 2, 3]" "[0..<5] = [0, 1, 2, 3, 4]"
  by code_simp+

theorem C2_witness:
  "0 < resolution (initial_state (voxel 250) 100 1300) \<and> (0::nat) < 2 \<and>
   {0..<2} \<subseteq> set [1, 0::nat] \<and>
   dispatched_candidates (initial_state (voxel 250) 100 1300) 2 = [150, 250] \<and>
   aggregate ref_libs (initial_state (voxel 250) 100 1300) 2 [1, 0] =
     Inr (sequential_scan ref_libs (initial_state (voxel 250) 100 1300) [150, 250])"
proof -
  have h1: "0 < resolution (initial_state (voxel 250) 100 1300)" by simp
  have h2: "(0::nat) < 2" by simp
  have h3: "{0..<2} \<subseteq> set [1, 0::nat]"
    using atLeastLessThan_upt[of 0 2] by (simp add: upt_examples)
  from C2_curve_is_scan_of_dispatched[OF h1 h2 h3, of ref_libs]
  have a: "aggregate ref_libs (initial_state (voxel 250) 100 1300) 2 [1, 0] =
             Inr (sequential_scan ref_libs (initial_state (voxel 250) 100 1300)
                    (dispatched_candidates (initial_state (voxel 250) 100 1300) 2))"
    and d: "dispatched_candidates (initial_state (voxel 250) 100 1300) 2 =
             map (\<lambda>j. 150 + int j * 100) [0..<2 * nat (364 div 100 div int 2)]"
    by simp_all
  have "[0..<2 * nat (364 div 100 div int 2)] = [0, 1]" by (simp add: upt_examples)
  with d have d': "dispatched_candidates (initial_state (voxel 250) 100 1300) 2 = [150, 250]"
    by simp
  from a d' h1 h2 h3 show ?thesis by simp
qed

theorem C2_counterexample:
  "map_sum id (\<lambda>r. length (fst r))
     (aggregate ref_libs (initial_state (voxel 250) 10 1300) 1 [0]) = Inr 36 \<and>
   map_sum id (\<lambda>r. length (fst r))
     (aggregate ref_libs (initial_state (voxel 250) 10 1300) 5 [0, 1, 2, 3, 4]) = Inr 35"
proof -
  let ?self = "initial_state (voxel 250) 10 1300"
  have r: "0 < resolution ?self" by simp
  have s1: "{0..<1} \<subseteq> set [0::nat]" by auto
  have s5: "{0..<5} \<subseteq> set [0, 1, 2, 3, 4::nat]"
    using atLeastLessThan_upt[of 0 5] by (simp add: upt_examples)
  have l1: "length (dispatched_candidates ?self 1) = 36"
    using dispatched_candidates_pos[OF r, of 1] by simp
  have l5: "length (dispatched_candidates ?self 5) = 35"
    using dispatched_candidates_pos[OF r, of 5] by simp
  from aggregate_pos[OF r _ s1, of ref_libs] aggregate_pos[OF r _ s5, of ref_libs] l1 l5
  show ?thesis by (simp add: sequential_scan_length)
qed

text \<open>
  C6, as amended. When the aggregated curve has no interior strict local minimum, the
  scan fails: the dip array is empty and reading its element 0 raises numpy's
  \<open>IndexError\<close>. There is no check for an empty dip array and no error of the
  program's own, and no mask is returned.
\<close>

theorem C6_no_dip_raises_IndexError:
  assumes "aggregate L self N schedule = Inr (cmps, imgs)"
    and "\<forall>i. 1 \<le> i \<and> i + 1 < length cmps \<longrightarrow>
              \<not> (cmps ! i < cmps ! (i - 1) \<and> cmps ! i < cmps ! (i + 1))"
  shows "SkeletonTHFinder L self N schedule = Inl IndexError"
proof -
  from assms(2) have "find_all_minima cmps = []" by (simp only: find_all_minima_empty_iff)
  with assms(1) show ?thesis by (rule SkeletonTHFinder_no_dip)
qed

lemma no_dip_examples: "find_all_minima [1, 0, 0] = []" "find_all_minima [0, 0, 0] = []"
  by code_simp+

theorem C6_witness:
  "aggregate ref_libs (initial_state (voxel 250) 100 1300) 1 [0] =
     Inr ([1, 0, 0], [voxel 65535, voxel 0, voxel 0]) \<and>
   find_all_minima [1, 0, 0] = [] \<and>
   SkeletonTHFinder ref_libs (initial_state (voxel 250) 100 1300) 1 [0] = Inl IndexError"
proof -
  let ?self = "initial_state (voxel 250) 100 1300"
  have r: "0 < resolution ?self" by simp
  have s1: "{0..<1} \<subseteq> set [0::nat]" by auto
  have d: "dispatched_candidates ?self 1 = [150, 250, 350]"
    using dispatched_candidates_pos[OF r, of 1] by (simp add: upt_examples)
  have a: "aggregate ref_libs ?self 1 [0] = Inr ([1, 0, 0], [voxel 65535, voxel 0, voxel 0])"
    using aggregate_pos[OF r _ s1, of ref_libs] unfolding d scan_voxel_250 by simp
  have h: "\<forall>i. 1 \<le> i \<and> i + 1 < length [1, 0, 0::nat] \<longrightarrow>
             \<not> ([1, 0, 0::nat] ! i < [1, 0, 0] ! (i - 1) \<and> [1, 0, 0::nat] ! i < [1, 0, 0] ! (i + 1))"
    using no_dip_examples(1) by (simp only: find_all_minima_empty_iff)
  from C6_no_dip_raises_IndexError[OF a h] a no_dip_examples(1) show ?thesis by simp
qed

theorem C6_counterexample:
  "PreProcessor_init (voxel 100) 100 1300 = Inr (initial_state (voxel 100) 100 1300) \<and>
   SkeletonTHFinder ref_libs (initial_state (voxel 100) 100 1300) 3 [2, 0, 1] = Inl IndexError"
proof -
  let ?self = "initial_state (voxel 100) 100 1300"
  have i: "PreProcessor_init (voxel 100) 100 1300 = Inr ?self"
    by (simp add: PreProcessor_init_def voxel_def)
  have r: "0 < resolution ?self" by simp
  have s3: "{0..<3} \<subseteq> set [2, 0, 1::nat]"
    using atLeastLessThan_upt[of 0 3] by (simp add: upt_examples)
  have d: "dispatched_candidates ?self 3 = [150, 250, 350]"
    using dispatched_candidates_pos[OF r, of 3] by (simp add: upt_examples)
  have a: "aggregate ref_libs ?self 3 [2, 0, 1] = Inr ([0, 0, 0], [voxel 0, voxel 0, voxel 0])"
    using aggregate_pos[OF r _ s3, of ref_libs] unfolding d scan_voxel_100 by simp
  from SkeletonTHFinder_no_dip[OF a no_dip_examples(2)] i show ?thesis by simp
qed

subsection \<open>Claims about the thresholding\<close>

lemma threshold_step_nth:
  assumes "i < length (flat data)"
  shows "flat (threshold_step data lo hi) ! i =
           (if (lo < uint (astype_uint16 (flat data ! i)) \<and> uint (astype_uint16 (flat data ! i)) \<le> hi) \<or>
               astype_uint16 (flat data ! i) = MAX_VOXEL_VALUE
            then MAX_VOXEL_VALUE else 0)"
  using assms by (simp add: threshold_step_flat)

lemma uint_astype_of_int:
  assumes "0 \<le> k" "k < 65536"
  shows "uint (astype_uint16 (of_int k)) = k"
  using assms by (simp add: uint_astype_uint16 trunc_of_int int32_range_def)

text \<open>
  C4, as amended. The thresholding step compares the sample after its cast to an
  unsigned 16-bit integer. A voxel whose cast value \<open>w\<close> is not 65535 becomes
  foreground-max exactly when \<open>low < w \<le> high\<close>, and 0 otherwise. For a sample that is
  an integer \<open>k\<close> with \<open>0 \<le> k < 65535\<close> the cast value is \<open>k\<close> itself.
\<close>

theorem C4_window_on_cast_value:
  assumes "i < length (flat data)"
  shows "(astype_uint16 (flat data ! i) \<noteq> MAX_VOXEL_VALUE \<longrightarrow>
            flat (threshold_step data lo hi) ! i =
              (if lo < uint (astype_uint16 (flat data ! i)) \<and>
                  uint (astype_uint16 (flat data ! i)) \<le> hi
               then MAX_VOXEL_VALUE else 0)) \<and>
         (\<forall>k. flat data ! i = of_int k \<and> 0 \<le> k \<and> k < 65535 \<longrightarrow>
            flat (threshold_step data lo hi) ! i =
              (if lo < k \<and> k \<le> hi then MAX_VOXEL_VALUE else 0)) \<and>
         shape (threshold_step data lo hi) = shape data \<and>
         length (flat (threshold_step data lo hi)) = length (flat data)"
proof (intro conjI allI impI)
  assume "astype_uint16 (flat data ! i) \<noteq> MAX_VOXEL_VALUE"
  then show "flat (threshold_step data lo hi) ! i =
      (if lo < uint (astype_uint16 (flat data ! i)) \<and> uint (astype_uint16 (flat data ! i)) \<le> hi
       then MAX_VOXEL_VALUE else 0)"
    using threshold_step_nth[OF assms, of lo hi] by simp
next
  fix k assume k: "flat data ! i = of_int k \<and> 0 \<le> k \<and> k < 65535"
  then have u: "uint (astype_uint16 (flat data ! i)) = k"
    using uint_astype_of_int[of k] by simp
  have "astype_uint16 (flat data ! i) \<noteq> MAX_VOXEL_VALUE"
    using k by (simp add: astype_max_iff trunc_of_int)
  then show "flat (threshold_step data lo hi) ! i = (if lo < k \<and> k \<le> hi then MAX_VOXEL_VALUE else 0)"
    using threshold_step_nth[OF assms, of lo hi] u by simp
next
  show "shape (threshold_step data lo hi) = shape data" by (rule threshold_step_shape)
next
  show "length (flat (threshold_step data lo hi)) = length (flat data)"
    by (simp add: threshold_step_flat)
qed

theorem C4_witness:
  "(0::nat) < length (flat \<lparr>shape = (1, 1, 2), flat = [300, 100::real]\<rparr>) \<and>
   astype_uint16 300 \<noteq> MAX_VOXEL_VALUE \<and>
   flat (threshold_step \<lparr>shape = (1, 1, 2), flat = [300, 100]\<rparr> 200 1300) ! 0 = MAX_VOXEL_VALUE"
proof -
  let ?d = "\<lparr>shape = (1, 1, 2), flat = [300, 100::real]\<rparr>"
  have h: "(0::nat) < length (flat ?d)" by simp
  have c: "astype_uint16 300 \<noteq> MAX_VOXEL_VALUE"
    by code_simp
  have k: "flat ?d ! 0 = of_int 300 \<and> (0::int) \<le> 300 \<and> (300::int) < 65535" by simp
  from C4_window_on_cast_value[OF h, of 200 1300] k
  have "flat (threshold_step ?d 200 1300) ! 0 =
          (if (200::int) < 300 \<and> (300::int) \<le> 1300 then MAX_VOXEL_VALUE else 0)"
    by blast
  with h c show ?thesis by simp
qed

theorem C4_counterexample:
  "flat (threshold_step \<lparr>shape = (1, 1, 3), flat = [200.5, 65836, 65535]\<rparr> 200 1300) =
     [0, 65535, 65535]"
  by code_simp

text \<open>
  C5. The claim: a window with \<open>high \<le> low\<close> gives an all-zero mask. The code keeps at
  foreground-max every voxel whose cast value is 65535, whatever the window, because
  the value that marks the foreground is also a value a sample can have: a volume of
  samples \<open>-1\<close> (cast to 65535) segmented with the window \<open>(200, 200)\<close> comes out all
  foreground. Without such a voxel the mask of the thresholding step is all zero
  (\<open>degenerate_window_zero\<close>).
\<close>

theorem C5_degenerate_window_not_zero:
  "flat (SegmentationByTH ref_libs
           (initial_state \<lparr>shape = (2, 2, 2), flat = replicate 8 (- 1)\<rparr> 10 1300) 200 200) =
     replicate 8 65535"
  by code_simp

text \<open>
  C10, as amended. The thresholding works on the samples cast to unsigned 16-bit
  integers. The cast drops the fractional part (rounding towards zero); when the
  truncated sample is in the signed 32-bit range the compared value is that integer
  modulo \<open>2^16\<close>, and otherwise it is 0. So a negative integer sample \<open>k\<close> with
  \<open>-65536 \<le> k < 0\<close> is compared as \<open>k + 65536\<close>, and a voxel whose cast value is 65535
  leaves the thresholding step as foreground-max whatever the window.
\<close>

theorem C10_comparison_on_cast_value:
  "(int32_range (if 0 \<le> v then \<lfloor>v\<rfloor> else \<lceil>v\<rceil>) \<longrightarrow>
      uint (astype_uint16 v) = (if 0 \<le> v then \<lfloor>v\<rfloor> else \<lceil>v\<rceil>) mod 65536) \<and>
   (\<not> int32_range (if 0 \<le> v then \<lfloor>v\<rfloor> else \<lceil>v\<rceil>) \<longrightarrow> astype_uint16 v = 0) \<and>
   flat (threshold_step data lo hi) =
     map (\<lambda>v. if (lo < uint (astype_uint16 v) \<and> uint (astype_uint16 v) \<le> hi) \<or>
                   astype_uint16 v = MAX_VOXEL_VALUE
                then MAX_VOXEL_VALUE else 0) (flat data) \<and>
   (- 65536 \<le> k \<and> k < 0 \<longrightarrow> uint (astype_uint16 (of_int k)) = k + 65536) \<and>
   (i < length (flat data) \<and> astype_uint16 (flat data ! i) = MAX_VOXEL_VALUE \<longrightarrow>
      flat (threshold_step data lo hi) ! i = MAX_VOXEL_VALUE)"
proof (intro conjI impI)
  assume "int32_range (if 0 \<le> v then \<lfloor>v\<rfloor> else \<lceil>v\<rceil>)"
  then show "uint (astype_uint16 v) = (if 0 \<le> v then \<lfloor>v\<rfloor> else \<lceil>v\<rceil>) mod 65536"
    by (simp add: uint_astype_uint16 trunc_toward_zero_def)
next
  assume "\<not> int32_range (if 0 \<le> v then \<lfloor>v\<rfloor> else \<lceil>v\<rceil>)"
  then show "astype_uint16 v = 0"
    by (simp add: astype_uint16_def trunc_toward_zero_def)
next
  show "flat (threshold_step data lo hi) =
     map (\<lambda>v. if (lo < uint (astype_uint16 v) \<and> uint (astype_uint16 v) \<le> hi) \<or>
                   astype_uint16 v = MAX_VOXEL_VALUE
                then MAX_VOXEL_VALUE else 0) (flat data)"
    by (rule threshold_step_flat)
next
  assume k: "- 65536 \<le> k \<and> k < 0"
  have nonneg: "0 \<le> k + 65536" and below: "k + 65536 < 65536" using k by linarith+
  have "k mod 65536 = (k + 65536) mod 65536" by (rule mod_add_self2[symmetric])
  also have "\<dots> = k + 65536" using nonneg below by (rule mod_pos_pos_trivial)
  finally have "k mod 65536 = k + 65536" .
  moreover have "int32_range k" using k by (simp add: int32_range_def)
  ultimately show "uint (astype_uint16 (of_int k)) = k + 65536"
    by (simp add: uint_astype_uint16 trunc_of_int)
next
  assume "i < length (flat data) \<and> astype_uint16 (flat data ! i) = MAX_VOXEL_VALUE"
  then show "flat (threshold_step data lo hi) ! i = MAX_VOXEL_VALUE"
    using threshold_step_nth[of i data lo hi] by simp
qed

lemma int32_examples:
  "int32_range (if (0::real) \<le> 401 / 2 then \<lfloor>401 / 2 :: real\<rfloor> else \<lceil>401 / 2 :: real\<rceil>)"
  "\<not> int32_range (if (0::real) \<le> 4294967296 then \<lfloor>4294967296 :: real\<rfloor> else \<lceil>4294967296 :: real\<rceil>)"
  "(if (0::real) \<le> 401 / 2 then \<lfloor>401 / 2 :: real\<rfloor> else \<lceil>401 / 2 :: real\<rceil>) mod 65536 = 200"
  "astype_uint16 (- 1) = MAX_VOXEL_VALUE"
  by code_simp+

theorem C10_witness:
  "uint (astype_uint16 (401 / 2)) = 200 \<and> astype_uint16 4294967296 = 0 \<and>
   - 65536 \<le> (- 1000::int) \<and> (- 1000::int) < 0 \<and>
   uint (astype_uint16 (of_int (- 1000))) = 64536 \<and>
   (0::nat) < length (flat \<lparr>shape = (1, 1, 1), flat = [- 1::real]\<rparr>) \<and>
   astype_uint16 (- 1) = MAX_VOXEL_VALUE \<and>
   flat (threshold_step \<lparr>shape = (1, 1, 1), flat = [- 1]\<rparr> 200 1300) ! 0 = MAX_VOXEL_VALUE"
proof -
  let ?d = "\<lparr>shape = (1, 1, 1), flat = [- 1::real]\<rparr>"
  note m = int32_examples(4)
  from C10_comparison_on_cast_value[of "401 / 2" ?d 200 1300 "- 1000" 0]
  have a: "uint (astype_uint16 (of_int (- 1000))) = - 1000 + 65536"
    and b: "flat (threshold_step ?d 200 1300) ! 0 = MAX_VOXEL_VALUE"
    and c: "uint (astype_uint16 (401 / 2)) =
              (if (0::real) \<le> 401 / 2 then \<lfloor>401 / 2 :: real\<rfloor> else \<lceil>401 / 2 :: real\<rceil>) mod 65536"
    using m int32_examples(1) by simp_all
  from C10_comparison_on_cast_value[of 4294967296 ?d 200 1300 "- 1000" 0]
  have e: "astype_uint16 4294967296 = 0"
    using int32_examples(2) by blast
  from a b c e m int32_examples(3) show ?thesis by simp
qed

theorem C10_counterexample:
  "uint (astype_uint16 (- 1 / 2)) = 0 \<and> uint (astype_uint16 (- 65537)) = 65535 \<and>
   uint (astype_uint16 2147483948) = 0 \<and> (2147483948::int) mod 65536 = 300"
  by code_simp

subsection \<open>Claims about the largest component\<close>

text \<open>
  C7, as amended. On a mask that is entirely background, the selection of the largest
  component fails: no label but 0 occurs, \<open>np.bincount(labels.flat)[1:]\<close> is empty and
  \<open>np.argmax\<close> of an empty array raises numpy's \<open>ValueError\<close>. The program has no error
  of its own for an empty mask, and nothing is selected or saved.
\<close>

theorem C7_background_mask_raises_ValueError:
  assumes "\<forall>v \<in> set (flat b). v = 0" and "label_contract L b"
  shows "largestCC_img L b = Inl ValueError \<and>
         get_Nlargest_component L self b = Inl ValueError"
proof -
  have "largestCC_img L b = Inl ValueError" using assms by (rule largestCC_img_background)
  then show ?thesis by (simp add: get_Nlargest_component_error)
qed

lemma label_contract_voxel: "label_contract ref_libs (voxel w)"
  unfolding label_contract_def ref_label_voxel by (simp add: voxel_def)

theorem C7_witness:
  "label_contract ref_libs (voxel 0) \<and>
   largestCC_img ref_libs (voxel 0) = Inl ValueError \<and>
   get_Nlargest_component ref_libs (initial_state (voxel 100) 10 1300) (voxel 0) =
     Inl ValueError"
proof -
  have bg: "\<forall>v \<in> set (flat (voxel (0::uint16))). v = 0" by (simp add: voxel_def)
  from C7_background_mask_raises_ValueError[OF bg label_contract_voxel]
       label_contract_voxel[of 0]
  show ?thesis by simp
qed

theorem C7_counterexample:
  "get_Nlargest_component ref_libs
     (initial_state \<lparr>shape = (2, 2, 1), flat = [100, 100, 100, 100]\<rparr> 10 1300)
     \<lparr>shape = (2, 2, 1), flat = [0, 0, 0, 0]\<rparr> = Inl ValueError"
  by code_simp





subsection \<open>Claims about the pelvis locator\<close>

lemma pelvis_loc_without_refinement:
  "find_suspected_pelvis_loc L density =
     (let peaks = find_peaks L density 150;
          deeps = find_peaks L (map (\<lambda>v. v * (- 1)) density) 200
      in case top_two_peaks L density peaks of
           Inl e \<Rightarrow> Inl e
         | Inr (x1_max, x2_max) \<Rightarrow>
        (case take_at density deeps of
           Inl e \<Rightarrow> Inl e
         | Inr dd \<Rightarrow>
        (case np_argpartition L (map (\<lambda>v. (- 1) * v) dd) (- 2) of
           Inl e \<Rightarrow> Inl e
         | Inr ad \<Rightarrow>
        (case take_at deeps (rev ad) of
           Inl e \<Rightarrow> Inl e
         | Inr minimas \<Rightarrow>
        (case first_where (\<lambda>m. m < x1_max) minimas of
           Inl e \<Rightarrow> Inl e
         | Inr jl \<Rightarrow>
        (case first_where (\<lambda>m. x1_max < m) minimas of
           Inl e \<Rightarrow> Inl e
         | Inr ju \<Rightarrow> Inr (minimas ! jl, minimas ! ju)))))))"
  by (simp add: find_suspected_pelvis_loc_def Let_def refine_single
        split: sum.splits prod.splits)

lemma three_valley_extrema:
  "find_peaks ref_libs three_valley_profile 150 = [2, 202]"
  "find_peaks ref_libs (map (\<lambda>v. v * (- 1)) three_valley_profile) 200 = [1, 201, 401]"
  "map (\<lambda>i. three_valley_profile ! i) [1, 201, 401, 2, 202] = [2, 3, 1, 20, 30]"
  by code_simp+

lemma three_valley_refinements:
  "spec_refine_lower three_valley_profile [1, 201] 1 = 201"
  "refine_lower [1, 201] 1 = 201"
  by (simp_all add: spec_refine_lower_def refine_lower_def ratio_below_def
        three_valley_extrema(3)[simplified])

text \<open>
  C3. The claim: the refinement walks the valley candidates of each side pairwise,
  compares the ratio of their density values with 1.5 and moves the bound to the
  farther candidate, through the last pair. In the code the two candidate arrays are
  \<open>minimas[np.argwhere(...)[0]]\<close>, the first row of the \<open>argwhere\<close> result, so each holds
  one candidate and the loops of lines 147 to 155 compare nothing
  (\<open>pelvis_loc_without_refinement\<close>). On the profile \<open>three_valley_profile\<close> the highest
  peak is at slice 202 and the valleys below it are, in the order of \<open>minimas\<close>, at 1
  and 201 with densities 2 and 3: the ratio is below 1.5, so the claim moves the lower
  bound to 201 (as would the loop as written, which divides the positions), and the
  code returns 1.
\<close>

theorem C3_refinement_is_skipped:
  "find_suspected_pelvis_loc ref_libs three_valley_profile = Inr (1, 401) \<and>
   find_peaks ref_libs three_valley_profile 150 = [2, 202] \<and>
   find_peaks ref_libs (map (\<lambda>v. v * (- 1)) three_valley_profile) 200 = [1, 201, 401] \<and>
   map (\<lambda>i. three_valley_profile ! i) [1, 201, 401, 2, 202] = [2, 3, 1, 20, 30] \<and>
   spec_refine_lower three_valley_profile [1, 201] 1 = 201 \<and>
   refine_lower [1, 201] 1 = 201"
proof -
  have "find_suspected_pelvis_loc ref_libs three_valley_profile = Inr (1, 401)"
    by code_simp
  then show ?thesis using three_valley_extrema three_valley_refinements by simp
qed

text \<open>
  C8. Whenever the pelvis locator returns bounds, \<open>0 \<le> lower_bound < upper_bound\<close> and
  \<open>upper_bound\<close> is below the number of axial slices of the mask, which is that of the
  volume.
\<close>

theorem C8_bounds_ordered_and_in_range:
  assumes "get_pelvis_ROI L self b = Inr (lower_bound, upper_bound)"
  shows "0 \<le> lower_bound \<and> lower_bound < upper_bound \<and> upper_bound < depth b \<and>
         depth b = depth (img_data self)"
  using assms by (rule get_pelvis_ROI_bounds)

lemma length_profile_row [simp]: "length (profile_row a v1 p1 v2 p2) = 204"
  by (simp add: profile_row_def)

lemma map_profile_row:
  "map f (profile_row a v1 p1 v2 p2) = profile_row (f a) (f v1) (f p1) (f v2) (f p2)"
  by (simp add: profile_row_def)

lemma map2_profile_row:
  "map2 f (profile_row a v1 p1 v2 p2) (profile_row a' v1' p1' v2' p2') =
     profile_row (f a a') (f v1 v1') (f p1 p1') (f v2 v2') (f p2 p2')"
  by (simp add: profile_row_def)

lemma zero_profile_row: "replicate 204 (0::int) = profile_row 0 0 0 0 0"
  by code_simp

lemma z_rows_pelvis_mask:
  "z_rows pelvis_mask =
     [profile_row 65535 65535 65535 0 65535, profile_row 65535 0 65535 0 65535,
      profile_row 0 0 65535 0 65535, profile_row 0 0 65535 0 0]"
  by (simp add: z_rows_def pelvis_mask_def upt_examples)

lemma density_pelvis_mask: "density_profile pelvis_mask = profile_row 2 1 4 0 3"
proof -
  have "depth pelvis_mask = 204" by (simp add: depth_def pelvis_mask_def)
  then show ?thesis
    by (simp add: density_profile_def z_rows_pelvis_mask zero_profile_row map_profile_row
          map2_profile_row)
qed

lemma locate_pelvis_profile:
  "find_suspected_pelvis_loc ref_libs (profile_row 2 1 4 0 3) = Inr (1, 201)"
  by code_simp

theorem C8_witness:
  "get_pelvis_ROI ref_libs (initial_state pelvis_volume 10 1300) pelvis_mask = Inr (1, 201) \<and>
   (1::nat) < 201 \<and> 201 < depth pelvis_mask"
proof -
  have r: "get_pelvis_ROI ref_libs (initial_state pelvis_volume 10 1300) pelvis_mask =
             Inr (1, 201)"
    by (simp add: get_pelvis_ROI_def pelvis_volume_def density_pelvis_mask locate_pelvis_profile)
  from C8_bounds_ordered_and_in_range[OF r] r show ?thesis by simp
qed

end
